theory Spec2Isabelle
  imports Complex_Main
begin

section \<open>The voice assistant front end (script.js) as a state machine\<close>

text \<open>
  The client keeps its state in module-level variables and reacts to callbacks of the
  browser: recogniser events, audio-processing events, socket events, timers and the mic
  button. JavaScript runs each callback to completion, so a callback (or the stretch of an
  async function between two awaits) is one function from session to session here. Calls
  to the browser's collaborators are appended to \<open>trace\<close> in program order.
  Console logging is not recorded.
\<close>

subsection \<open>Data\<close>

datatype icon = IconMic | IconStudioMic | IconGreen | IconRecord

datatype ready_state = CONNECTING | OPEN | CLOSING | CLOSED

text \<open>A SpeechRecognition object; \<open>capturing\<close> is the browser's own "started" flag:
  start() on a started recogniser throws InvalidStateError, stop() ends it later through
  its end event.\<close>

datatype recognizer = Recognizer (capturing: bool)

datatype resource = Handle

text \<open>Frames the client sends.\<close>

datatype client_msg = Query string string | Cancel string

text \<open>Callbacks handed to setTimeout: the dead-zone closure of onAISpeechStart, the delayed
  handleQuestion of recognition.onresult, and createWebSocket of ws.onclose.\<close>

datatype timer_cb = DeadZone | AskQuestion string | Reconnect

datatype effect =
    SynthCancel
  | SynthSpeak string
  | AudioPause
  | AudioClearSrc
  | AudioPlay
  | WsNew
  | WsSend client_msg
  | WsClose
  | RecNew
  | RecStart
  | RecStop
  | RecDetach
  | LoadModel
  | GetUserMedia
  | ClassifierRun "real list"
  | ProcDisconnect
  | SrcDisconnect
  | CtxClose
  | FetchSpeak string
  | FetchQuery string
  | SetTimeout timer_cb nat

text \<open>
  A decoded inbound frame, with the field types the server puts on the wire: \<open>id\<close> is
  null or a string, \<open>text\<close> and \<open>error\<close> are absent or strings. \<open>None\<close> is
  null/undefined.
\<close>

record ws_msg =
  mtype :: string
  mid :: "string option"
  mtext :: "string option"
  merror :: "string option"

datatype frame = NonJson | Frame ws_msg

text \<open>What the classifier call of one window yields: the call throws, the first output is
  not a number, or it is a number.\<close>

datatype speech_prob = RunFailed | NotANumber | Prob real

record session =
  running :: bool
  recognition :: "recognizer option"
  aiSpeaking :: bool
  bargeInEnabled :: bool
  audio :: "resource option"
  vadRunning :: bool
  vadSession :: "resource option"
  vadAudioCtx :: "resource option"
  vadSource :: "resource option"
  vadProcessor :: "resource option"
  ws :: "ready_state option"
  wsReady :: bool
  currentReqId :: "string option"
  partialBuffer :: "string \<rightharpoonup> string"
  micIcon :: icon
  micBtnDisabled :: bool
  userText :: string
  botText :: string
  ring :: "real list"
  hasSpeechRecognition :: bool
  hasSpeechSynthesis :: bool
  now :: nat
  timers :: "(nat \<times> timer_cb) list"
  trace :: "effect list"

definition USE_WEBSOCKET :: bool where
  "USE_WEBSOCKET = True"

subsection \<open>JavaScript idioms\<close>

text \<open>\<open>x || d\<close> on a value that is null/undefined or a string: the empty string is falsy.\<close>

definition js_or :: "string option \<Rightarrow> string \<Rightarrow> string" where
  "js_or x d = (case x of None \<Rightarrow> d | Some t \<Rightarrow> if t = [] then d else t)"

definition truthy :: "string option \<Rightarrow> bool" where
  "truthy x = (case x of None \<Rightarrow> False | Some t \<Rightarrow> t \<noteq> [])"

text \<open>
  A string is the list of its UTF-16 code units, and a \<open>char\<close> is a code unit below
  0x100: the strings of the model are the JavaScript strings of Latin-1 text.
  String.prototype.trim strips white space and line terminators. Below 0x100 these are
  tab, LF, VT, FF, CR, space and the no-break space U+00A0; the others (U+FEFF, U+1680,
  U+2000 to U+200A, U+2028, U+2029, U+202F, U+205F, U+3000) are code units that no
  string of the model holds.
\<close>

definition js_space :: "char \<Rightarrow> bool" where
  "js_space c =
     (c \<in> set [CHR 0x09, CHR 0x0A, CHR 0x0B, CHR 0x0C, CHR 0x0D, CHR 0x20, CHR 0xA0])"

definition trim :: "string \<Rightarrow> string" where
  "trim t = rev (dropWhile js_space (rev (dropWhile js_space t)))"

text \<open>
  uuidv4 replaces, in the template, every x by a hexadecimal digit of \<open>Math.random()*16|0\<close>
  and every y by the digit of \<open>r&0x3|0x8\<close>, which is 8, 9, a or b. \<open>fills t i\<close>: the
  string \<open>i\<close> is the template \<open>t\<close> so filled; \<open>uuid_token\<close>: what uuidv4 can return.
\<close>

definition hex_digit :: "char \<Rightarrow> bool" where
  "hex_digit c = (c \<in> set ''0123456789abcdef'')"

fun fills :: "string \<Rightarrow> string \<Rightarrow> bool" where
  "fills [] [] = True"
| "fills (t # ts) (c # cs) =
     ((if t = CHR ''x'' then hex_digit c
       else if t = CHR ''y'' then c \<in> set ''89ab''
       else c = t) \<and> fills ts cs)"
| "fills ts cs = False"

definition uuid_token :: "string \<Rightarrow> bool" where
  "uuid_token i = fills ''xxxxxxxx-xxxx-4xxx-yxxx-xxxxxxxxxxxx'' i"

text \<open>
  \<open>partialBuffer\<close> is a plain object \<open>{}\<close>, and the session's map of that name holds
  its own properties. A read \<open>partialBuffer[id]\<close> finds an own property or else a member
  inherited from Object.prototype, which is truthy and not a string; and an assignment to
  \<open>__proto__\<close> stores nothing. So the map tells what the code reads and writes exactly
  at the keys that name no member of Object.prototype: \<open>own_key\<close>. The properties of
  the accumulator below are stated for such keys; every token of uuidv4 is one
  (\<open>uuid_token_own_key\<close>).
\<close>

definition object_prototype_names :: "string list" where
  "object_prototype_names =
     [''constructor'', ''__defineGetter__'', ''__defineSetter__'', ''hasOwnProperty'',
      ''__lookupGetter__'', ''__lookupSetter__'', ''isPrototypeOf'',
      ''propertyIsEnumerable'', ''toString'', ''valueOf'', ''__proto__'',
      ''toLocaleString'']"

definition own_key :: "string \<Rightarrow> bool" where
  "own_key i = (i \<notin> set object_prototype_names)"

definition emit :: "effect list \<Rightarrow> session \<Rightarrow> session" where
  "emit es s = s\<lparr>trace := trace s @ es\<rparr>"

definition setTimeout :: "timer_cb \<Rightarrow> nat \<Rightarrow> session \<Rightarrow> session" where
  "setTimeout cb d s =
     s\<lparr>timers := timers s @ [(now s + d, cb)], trace := trace s @ [SetTimeout cb d]\<rparr>"

text \<open>\<open>try { recognition && recognition.start(); } catch (e) { log(...) }\<close>: nothing
  when there is no recogniser; the call throws, and is logged, when capture is already on.\<close>

definition recognition_start :: "session \<Rightarrow> session" where
  "recognition_start s =
     (case recognition s of
        None \<Rightarrow> s
      | Some r \<Rightarrow> emit [RecStart] (s\<lparr>recognition := Some (Recognizer True)\<rparr>))"

definition recognition_stop :: "session \<Rightarrow> session" where
  "recognition_stop s =
     (case recognition s of None \<Rightarrow> s | Some r \<Rightarrow> emit [RecStop] s)"

subsection \<open>AI speech control (TTS and barge-in)\<close>

definition onAISpeechStart :: "session \<Rightarrow> session" where
  "onAISpeechStart s =
     setTimeout DeadZone 350
       ((recognition_stop (s\<lparr>aiSpeaking := True\<rparr>))\<lparr>bargeInEnabled := False\<rparr>)"

definition onAISpeechEnd :: "session \<Rightarrow> session" where
  "onAISpeechEnd s =
     recognition_start (s\<lparr>aiSpeaking := False, bargeInEnabled := False\<rparr>)"

text \<open>ws.send throws when \<open>ws\<close> is null or still connecting; the callers catch it.\<close>

definition ws_can_send :: "session \<Rightarrow> bool" where
  "ws_can_send s = (case ws s of None \<Rightarrow> False | Some r \<Rightarrow> r \<noteq> CONNECTING)"

definition stopSpeaking :: "bool \<Rightarrow> session \<Rightarrow> session" where
  "stopSpeaking startListening s =
     (let s1 = s\<lparr>aiSpeaking := False, bargeInEnabled := False\<rparr>;
          s2 = (if hasSpeechSynthesis s1 then emit [SynthCancel] s1 else s1);
          s3 = (case audio s2 of
                  None \<Rightarrow> s2
                | Some a \<Rightarrow> (emit [AudioPause, AudioClearSrc] s2)\<lparr>audio := None\<rparr>);
          s4 = (if wsReady s3 \<and> truthy (currentReqId s3)
                then (if ws_can_send s3
                      then emit [WsSend (Cancel (the (currentReqId s3)))] s3
                      else s3)\<lparr>currentReqId := None\<rparr>
                else s3)
      in if startListening then recognition_start s4 else s4)"

definition fallbackSpeak :: "string \<Rightarrow> session \<Rightarrow> session" where
  "fallbackSpeak txt s =
     (if \<not> hasSpeechSynthesis s then onAISpeechEnd s else emit [SynthSpeak txt] s)"

text \<open>playAnswerAudio up to its first await: the speaking-start transition and the call
  of fetch('/speak'). What follows the await is the events below.\<close>

definition playAnswerAudio :: "string \<Rightarrow> session \<Rightarrow> session" where
  "playAnswerAudio answerText s = emit [FetchSpeak answerText] (onAISpeechStart s)"

text \<open>The /speak response is 204, or it fails (not ok, network error, blob or play()
  rejected), or its audio is ready.\<close>

definition speak_no_content :: "string \<Rightarrow> session \<Rightarrow> session" where
  "speak_no_content answerText s = fallbackSpeak answerText s"

definition speak_failed :: "string \<Rightarrow> session \<Rightarrow> session" where
  "speak_failed answerText s = fallbackSpeak answerText s"

definition speak_audio :: "session \<Rightarrow> session" where
  "speak_audio s = emit [AudioPlay] (s\<lparr>audio := Some Handle\<rparr>)"

definition audio_onended :: "session \<Rightarrow> session" where
  "audio_onended s = onAISpeechEnd (s\<lparr>audio := None\<rparr>)"

definition audio_onerror :: "session \<Rightarrow> session" where
  "audio_onerror s = onAISpeechEnd (s\<lparr>audio := None\<rparr>)"

definition utterance_onend :: "session \<Rightarrow> session" where
  "utterance_onend s = onAISpeechEnd s"

subsection \<open>WebSocket (streaming)\<close>

definition createWebSocket :: "session \<Rightarrow> session" where
  "createWebSocket s =
     (if \<not> USE_WEBSOCKET then s
      else if (case ws s of None \<Rightarrow> False | Some r \<Rightarrow> r = OPEN \<or> r = CONNECTING) then s
      else emit [WsNew] (s\<lparr>ws := Some CONNECTING\<rparr>))"

definition ws_onopen :: "session \<Rightarrow> session" where
  "ws_onopen s = s\<lparr>ws := map_option (\<lambda>r. OPEN) (ws s), wsReady := True\<rparr>"

definition ws_onclose :: "session \<Rightarrow> session" where
  "ws_onclose s =
     setTimeout Reconnect 2000 (s\<lparr>ws := map_option (\<lambda>r. CLOSED) (ws s), wsReady := False\<rparr>)"

definition ws_onerror :: "session \<Rightarrow> session" where
  "ws_onerror s =
     (let s1 = s\<lparr>wsReady := False\<rparr>
      in case ws s1 of
           None \<Rightarrow> s1
         | Some r \<Rightarrow> emit [WsClose] (s1\<lparr>ws := Some (if r = CLOSED then CLOSED else CLOSING)\<rparr>))"

definition handleWSMessage :: "ws_msg \<Rightarrow> session \<Rightarrow> session" where
  "handleWSMessage msg s =
     (if \<not> truthy (mid msg) then s
      else
        let id = the (mid msg) in
        if mtype msg = ''partial'' then
          let acc = js_or (partialBuffer s id) [] @ js_or (mtext msg) []
          in s\<lparr>partialBuffer := (partialBuffer s)(id \<mapsto> acc), botText := acc\<rparr>
        else if mtype msg = ''final'' then
          let finalText = js_or (mtext msg) (js_or (partialBuffer s id) [])
          in playAnswerAudio finalText (s\<lparr>partialBuffer := (partialBuffer s)(id := None)\<rparr>)
        else if mtype msg = ''error'' then
          s\<lparr>botText := ''Error: '' @ js_or (merror msg) ''Unknown error''\<rparr>
        else s)"

definition ws_onmessage :: "frame \<Rightarrow> session \<Rightarrow> session" where
  "ws_onmessage f s = (case f of NonJson \<Rightarrow> s | Frame msg \<Rightarrow> handleWSMessage msg s)"

subsection \<open>Handle Question flow\<close>

definition handleQuestionViaFetch :: "string \<Rightarrow> session \<Rightarrow> session" where
  "handleQuestionViaFetch questionText s =
     emit [FetchQuery questionText] (s\<lparr>botText := ''Thinking...''\<rparr>)"

text \<open>The /query response: its answer (absent or a string), or a failure.\<close>

definition query_answered :: "string option \<Rightarrow> session \<Rightarrow> session" where
  "query_answered a s =
     (let answer = js_or a ''No answer returned.''
      in playAnswerAudio answer (s\<lparr>botText := answer\<rparr>))"

definition query_failed :: "session \<Rightarrow> session" where
  "query_failed s = s\<lparr>botText := ''Error contacting assistant.''\<rparr>"

text \<open>\<open>uuid\<close> is the token that this call's uuidv4() draws from Math.random.\<close>

definition handleQuestion :: "string \<Rightarrow> string \<Rightarrow> session \<Rightarrow> session" where
  "handleQuestion questionText uuid s =
     (if questionText = [] \<or> trim questionText = [] then s
      else
        let s1 = s\<lparr>botText := ''Thinking...''\<rparr> in
        if USE_WEBSOCKET \<and> wsReady s1 then
          let s2 = s1\<lparr>currentReqId := Some uuid,
                      partialBuffer := (partialBuffer s1)(uuid \<mapsto> [])\<rparr>
          in if ws_can_send s2 then emit [WsSend (Query uuid questionText)] s2
             else handleQuestionViaFetch questionText s2
        else handleQuestionViaFetch questionText s1)"

subsection \<open>SpeechRecognition setup\<close>

text \<open>setupRecognition; its closures onstart, onresult and onend are the next three
  definitions. \<open>raw\<close> is the transcript of the last result of the event.\<close>

definition setupRecognition :: "session \<Rightarrow> session" where
  "setupRecognition s =
     (if \<not> hasSpeechRecognition s
      then s\<lparr>botText := ''Speech recognition not supported in this browser.'',
             micBtnDisabled := True\<rparr>
      else recognition_start (emit [RecNew] (s\<lparr>recognition := Some (Recognizer False)\<rparr>)))"

definition recognition_onstart :: "session \<Rightarrow> session" where
  "recognition_onstart s = s\<lparr>micIcon := IconRecord\<rparr>"

definition recognition_onresult :: "string \<Rightarrow> string \<Rightarrow> session \<Rightarrow> session" where
  "recognition_onresult raw uuid s =
     (let transcript = trim raw in
      if transcript = [] then s
      else
        let s1 = s\<lparr>userText := transcript\<rparr> in
        if aiSpeaking s1
        then setTimeout (AskQuestion transcript) 40 (stopSpeaking False s1)
        else handleQuestion transcript uuid s1)"

text \<open>The end event: the browser's recogniser has stopped capturing; then the handler.\<close>

definition recognition_onend :: "session \<Rightarrow> session" where
  "recognition_onend s =
     (let s0 = s\<lparr>recognition := map_option (\<lambda>r. Recognizer False) (recognition s)\<rparr>;
          s1 = s0\<lparr>micIcon := (if running s0 then IconStudioMic else IconMic)\<rparr>
      in if running s1 \<and> \<not> aiSpeaking s1 then recognition_start s1 else s1)"

subsection \<open>Silero VAD\<close>

definition loadSileroModel :: "session \<Rightarrow> session" where
  "loadSileroModel s = emit [LoadModel] s"

text \<open>The model has loaded: loadSileroModel stores the session and startAssistant goes on
  into startVAD, up to its await of getUserMedia.\<close>

definition model_loaded :: "session \<Rightarrow> session" where
  "model_loaded s = emit [GetUserMedia] (s\<lparr>vadSession := Some Handle\<rparr>)"

text \<open>The microphone stream is there: the rest of startVAD (a new, empty ring), then
  startAssistant's createWebSocket.\<close>

definition vad_started :: "session \<Rightarrow> session" where
  "vad_started s =
     createWebSocket
       (s\<lparr>vadAudioCtx := Some Handle, vadSource := Some Handle, vadProcessor := Some Handle,
          ring := [], vadRunning := True\<rparr>)"

text \<open>Loading the model or opening the microphone failed: startAssistant's catch.\<close>

definition vad_failed :: "session \<Rightarrow> session" where
  "vad_failed s = createWebSocket s"

text \<open>vadProcessor.onaudioprocess up to its await of session.run.\<close>

definition onaudioprocess :: "real list \<Rightarrow> session \<Rightarrow> session" where
  "onaudioprocess inputData s =
     (if \<not> vadRunning s then s
      else
        let s1 = s\<lparr>ring := ring s @ inputData\<rparr> in
        if length (ring s1) > 1600 then emit [ClassifierRun (ring s1)] s1 else s1)"

definition threshold :: "session \<Rightarrow> real" where
  "threshold s = (if aiSpeaking s then 0.8 else 0.65)"

text \<open>The guard of the barge-in: \<open>aiSpeaking && bargeInEnabled && speechProb > threshold\<close>.
  A comparison with NaN is false.\<close>

definition barge_in :: "speech_prob \<Rightarrow> session \<Rightarrow> bool" where
  "barge_in r s =
     (aiSpeaking s \<and> bargeInEnabled s \<and>
      (case r of Prob speechProb \<Rightarrow> speechProb > threshold s | _ \<Rightarrow> False))"

text \<open>onaudioprocess after the await: the classifier's answer for the window, the catch
  of a failed run, and the finally that empties the ring.\<close>

definition vad_result :: "speech_prob \<Rightarrow> session \<Rightarrow> session" where
  "vad_result r s =
     (let s1 = (case r of
                  RunFailed \<Rightarrow> s
                | _ \<Rightarrow> if barge_in r s then stopSpeaking True s else s)
      in s1\<lparr>ring := []\<rparr>)"

definition stopVAD :: "session \<Rightarrow> session" where
  "stopVAD s =
     (let s1 = s\<lparr>vadRunning := False\<rparr>;
          s2 = (case vadProcessor s1 of
                  None \<Rightarrow> s1
                | Some p \<Rightarrow> (emit [ProcDisconnect] s1)\<lparr>vadProcessor := None\<rparr>);
          s3 = (case vadSource s2 of
                  None \<Rightarrow> s2
                | Some p \<Rightarrow> (emit [SrcDisconnect] s2)\<lparr>vadSource := None\<rparr>);
          s4 = (case vadAudioCtx s3 of
                  None \<Rightarrow> s3
                | Some p \<Rightarrow> (emit [CtxClose] s3)\<lparr>vadAudioCtx := None\<rparr>)
      in s4\<lparr>vadSession := None\<rparr>)"

subsection \<open>Start / Stop assistant (mic button)\<close>

text \<open>startAssistant up to its first await.\<close>

definition startAssistant :: "session \<Rightarrow> session" where
  "startAssistant s =
     (if running s then s
      else loadSileroModel
             (setupRecognition
                (s\<lparr>running := True, micIcon := IconGreen, botText := ''Listening...''\<rparr>)))"

definition stopAssistant :: "session \<Rightarrow> session" where
  "stopAssistant s =
     (if \<not> running s then s
      else
        let s1 = s\<lparr>running := False, micIcon := IconMic, botText := ''Stopped''\<rparr>;
            s2 = (case recognition s1 of
                    None \<Rightarrow> s1
                  | Some r \<Rightarrow> (emit [RecDetach, RecStop] s1)\<lparr>recognition := None\<rparr>);
            s3 = stopVAD s2;
            s4 = stopSpeaking False s3
        in case ws s4 of
             None \<Rightarrow> s4
           | Some r \<Rightarrow> (emit [WsClose] s4)\<lparr>ws := None, wsReady := False\<rparr>)"

definition micBtn_click :: "session \<Rightarrow> session" where
  "micBtn_click s = (if \<not> running s then startAssistant s else stopAssistant s)"

subsection \<open>Timers\<close>

text \<open>The body of each timer callback. The dead-zone closure is
  \<open>if (aiSpeaking) bargeInEnabled = true\<close>.\<close>

definition deadzone_elapsed :: "session \<Rightarrow> session" where
  "deadzone_elapsed s = (if aiSpeaking s then s\<lparr>bargeInEnabled := True\<rparr> else s)"

fun fire :: "timer_cb \<Rightarrow> string \<Rightarrow> session \<Rightarrow> session" where
  "fire DeadZone uuid s = deadzone_elapsed s"
| "fire (AskQuestion transcript) uuid s = handleQuestion transcript uuid s"
| "fire Reconnect uuid s = createWebSocket s"

text \<open>The pending timer that is due first, the one registered first among equals.\<close>

fun next_due :: "(nat \<times> timer_cb) list \<Rightarrow> (nat \<times> timer_cb) option" where
  "next_due [] = None"
| "next_due (x # xs) =
     (case next_due xs of
        None \<Rightarrow> Some x
      | Some y \<Rightarrow> if fst y < fst x then Some y else Some x)"

text \<open>The event loop runs a timer no earlier than it is due, never ahead of one due before it.\<close>

definition run_timer :: "string \<Rightarrow> session \<Rightarrow> session" where
  "run_timer uuid s =
     (case next_due (timers s) of
        None \<Rightarrow> s
      | Some (t, cb) \<Rightarrow>
          if now s < t then s
          else fire cb uuid (s\<lparr>timers := remove1 (t, cb) (timers s)\<rparr>))"

subsection \<open>The event loop\<close>

text \<open>
  What the browser can deliver. \<open>Elapse d\<close> lets d milliseconds pass; \<open>Timeout\<close> runs
  the timer that is due. An event that carries a uuid carries the token that uuidv4
  would draw if the handler asks for one.
\<close>

datatype event =
    MicClick
  | RecOnStart
  | RecOnResult string string
  | RecOnEnd
  | RecOnError
  | ModelLoaded
  | VadStarted
  | VadFailed
  | AudioProcess "real list"
  | VadResult speech_prob
  | WsOpen
  | WsClosed
  | WsError
  | WsMessage frame
  | SpeakNoContent string
  | SpeakFailed string
  | SpeakAudio
  | AudioEnded
  | AudioErrored
  | UtteranceEnd
  | QueryAnswered "string option"
  | QueryFailed
  | Elapse nat
  | Timeout string

fun step :: "event \<Rightarrow> session \<Rightarrow> session" where
  "step MicClick s = micBtn_click s"
| "step RecOnStart s = recognition_onstart s"
| "step (RecOnResult raw uuid) s = recognition_onresult raw uuid s"
| "step RecOnEnd s = recognition_onend s"
| "step RecOnError s = s"
| "step ModelLoaded s = model_loaded s"
| "step VadStarted s = vad_started s"
| "step VadFailed s = vad_failed s"
| "step (AudioProcess inputData) s = onaudioprocess inputData s"
| "step (VadResult r) s = vad_result r s"
| "step WsOpen s = ws_onopen s"
| "step WsClosed s = ws_onclose s"
| "step WsError s = ws_onerror s"
| "step (WsMessage f) s = ws_onmessage f s"
| "step (SpeakNoContent t) s = speak_no_content t s"
| "step (SpeakFailed t) s = speak_failed t s"
| "step SpeakAudio s = speak_audio s"
| "step AudioEnded s = audio_onended s"
| "step AudioErrored s = audio_onerror s"
| "step UtteranceEnd s = utterance_onend s"
| "step (QueryAnswered a) s = query_answered a s"
| "step QueryFailed s = query_failed s"
| "step (Elapse d) s = s\<lparr>now := now s + d\<rparr>"
| "step (Timeout uuid) s = run_timer uuid s"

fun run :: "event list \<Rightarrow> session \<Rightarrow> session" where
  "run [] s = s"
| "run (e # es) s = run es (step e s)"

text \<open>The module's initial state, in a browser with or without the two speech APIs.\<close>

definition init :: "bool \<Rightarrow> bool \<Rightarrow> session" where
  "init rec_api synth_api =
     \<lparr>running = False, recognition = None, aiSpeaking = False, bargeInEnabled = False,
      audio = None, vadRunning = False, vadSession = None, vadAudioCtx = None,
      vadSource = None, vadProcessor = None, ws = None, wsReady = False,
      currentReqId = None, partialBuffer = Map.empty, micIcon = IconMic,
      micBtnDisabled = False, userText = [], botText = [], ring = [],
      hasSpeechRecognition = rec_api, hasSpeechSynthesis = synth_api,
      now = 0, timers = [], trace = []\<rparr>"

section \<open>The server's replies to one inbound frame (server.js)\<close>

text \<open>
  The message handler of a socket, up to the point where a generation starts. The raw
  frame does not parse, or it parses to an object with \<open>type\<close>, \<open>id\<close> and
  \<open>question\<close> (absent or strings). \<open>ai\<close> tells whether a model client is configured,
  \<open>socketRequests\<close> holds the ids with a live controller.
\<close>

datatype inbound = Unparsable | Parsed string "string option" "string option"

datatype server_action = Send ws_msg | Generate string string | Abort string ws_msg | Ignore

definition error_frame :: "string option \<Rightarrow> string \<Rightarrow> ws_msg" where
  "error_frame i e = \<lparr>mtype = ''error'', mid = i, mtext = None, merror = Some e\<rparr>"

text \<open>\<open>id || null\<close>\<close>

definition or_null :: "string option \<Rightarrow> string option" where
  "or_null x = (if truthy x then x else None)"

definition canned :: "string \<Rightarrow> string" where
  "canned question =
     ''Demo mode: I heard '' @ [CHR 0x22] @ question @ [CHR 0x22] @
     ''. I can answer Revolt Motors questions like '' @ [CHR 0x22] @
     ''Tell me about the RV400 range'' @ [CHR 0x22] @ ''.''"

definition server_on_message :: "bool \<Rightarrow> string set \<Rightarrow> inbound \<Rightarrow> server_action" where
  "server_on_message ai socketRequests raw =
     (case raw of
        Unparsable \<Rightarrow> Send (error_frame None ''Invalid JSON'')
      | Parsed type rid question \<Rightarrow>
          if type = ''query'' then
            if \<not> truthy rid \<or> \<not> truthy question
            then Send (error_frame (or_null rid) ''Missing id or question'')
            else if the rid \<in> socketRequests
            then Send (error_frame rid ''Request id already active'')
            else if \<not> ai
            then Send \<lparr>mtype = ''final'', mid = rid, mtext = Some (canned (the question)),
                       merror = None\<rparr>
            else Generate (the rid) (the question)
          else if type = ''cancel'' then
            if \<not> truthy rid then Ignore
            else Abort (the rid)
                   \<lparr>mtype = ''cancelled'', mid = rid, mtext = None, merror = None\<rparr>
          else Send (error_frame (or_null rid) ''Unknown message type''))"

section \<open>Properties\<close>

subsection \<open>Notions used in the statements\<close>

text \<open>The invariant of the data model: armed for barge-in only while speaking.\<close>

definition barge_inv :: "session \<Rightarrow> bool" where
  "barge_inv s = (bargeInEnabled s \<longrightarrow> aiSpeaking s)"

text \<open>
  Inside the dead zone that ends at time \<open>T\<close>: barge-in is not armed, a speaking-start
  from now on sets its timer at or after \<open>T\<close>, and so is every dead-zone timer pending.
\<close>

definition in_dead_zone :: "nat \<Rightarrow> session \<Rightarrow> bool" where
  "in_dead_zone T s =
     (\<not> bargeInEnabled s \<and> T \<le> now s + 350 \<and>
      (\<forall>x\<in>set (timers s). snd x = DeadZone \<longrightarrow> T \<le> fst x))"

text \<open>From \<open>s\<close> to \<open>s'\<close> no time passes, barge-in is not armed, no timer is removed and
  every dead-zone timer added is due 350 ms from now.\<close>

definition no_arming :: "session \<Rightarrow> session \<Rightarrow> bool" where
  "no_arming s s' =
     ((bargeInEnabled s' \<longrightarrow> bargeInEnabled s) \<and> now s' = now s \<and>
      (\<exists>new. timers s' = timers s @ new \<and>
             (\<forall>x\<in>set new. snd x = DeadZone \<longrightarrow> fst x = now s + 350)))"

text \<open>The text fragments that a sequence of frames carries for request \<open>i\<close>, in order.\<close>

definition fragments :: "string \<Rightarrow> ws_msg list \<Rightarrow> string" where
  "fragments i ms =
     concat (map (\<lambda>m. js_or (mtext m) []) (filter (\<lambda>m. mid m = Some i) ms))"

subsection \<open>Scenarios\<close>

definition partial_msg :: "string \<Rightarrow> string \<Rightarrow> ws_msg" where
  "partial_msg i t = \<lparr>mtype = ''partial'', mid = Some i, mtext = Some t, merror = None\<rparr>"

definition final_msg :: "string \<Rightarrow> string option \<Rightarrow> ws_msg" where
  "final_msg i t = \<lparr>mtype = ''final'', mid = Some i, mtext = t, merror = None\<rparr>"

definition cancelled_msg :: "string \<Rightarrow> ws_msg" where
  "cancelled_msg i = \<lparr>mtype = ''cancelled'', mid = Some i, mtext = None, merror = None\<rparr>"

text \<open>The assistant is started, the channel opens, and the user asks two questions before
  any answer has come back: request a1, then request a2.\<close>

definition two_requests :: "event list" where
  "two_requests =
     [MicClick, ModelLoaded, VadStarted, WsOpen,
      RecOnResult ''range of the RV400'' ''a1'',
      RecOnResult ''price of the RV400'' ''a2'']"

definition listening :: session where
  "listening = run two_requests (init True True)"

text \<open>The answer to a1 arrives and is played; 350 ms later the dead-zone timer runs.\<close>

definition answer_a1 :: "event list" where
  "answer_a1 =
     [WsMessage (Frame (final_msg ''a1'' (Some ''150 km''))), RecOnEnd, SpeakAudio,
      Elapse 350, Timeout []]"

definition armed :: session where
  "armed = run answer_a1 listening"

text \<open>The answer to a1 arrives and, 300 ms later, the answer to a2: a second
  speaking-start, at time 300.\<close>

definition second_start :: session where
  "second_start =
     run [WsMessage (Frame (final_msg ''a1'' (Some ''150 km''))), RecOnEnd, Elapse 300,
          WsMessage (Frame (final_msg ''a2'' (Some ''1.4 lakh'')))] listening"

text \<open>50 ms into the second answer the first answer's timer runs; then a window of audio
  goes to the classifier.\<close>

definition fifty_ms_later :: session where
  "fifty_ms_later = run [Elapse 50, Timeout [], AudioProcess (replicate 1601 0)] second_start"

subsection \<open>Unfolding and evaluation\<close>

lemmas js_defs = js_or_def truthy_def trim_def js_space_def

lemmas handler_defs =
  emit_def setTimeout_def recognition_start_def recognition_stop_def onAISpeechStart_def
  onAISpeechEnd_def ws_can_send_def stopSpeaking_def fallbackSpeak_def playAnswerAudio_def
  speak_no_content_def speak_failed_def speak_audio_def audio_onended_def audio_onerror_def
  utterance_onend_def createWebSocket_def USE_WEBSOCKET_def ws_onopen_def ws_onclose_def
  ws_onerror_def handleWSMessage_def ws_onmessage_def handleQuestionViaFetch_def
  query_answered_def query_failed_def handleQuestion_def setupRecognition_def
  recognition_onstart_def recognition_onresult_def recognition_onend_def loadSileroModel_def
  model_loaded_def vad_started_def vad_failed_def onaudioprocess_def threshold_def
  barge_in_def vad_result_def stopVAD_def startAssistant_def stopAssistant_def
  micBtn_click_def deadzone_elapsed_def run_timer_def init_def

lemma run_append: "run (es @ fs) s = run fs (run es s)"
  by (induction es arbitrary: s) simp_all

lemma trim_Nil [simp]: "trim [] = []"
  by (simp add: trim_def)

lemma js_or_empty: "js_or x [] = (case x of None \<Rightarrow> [] | Some t \<Rightarrow> t)"
  by (simp add: js_or_def split: option.splits)

lemma fills_length: "fills t i \<Longrightarrow> length i = length t"
  by (induction t i rule: fills.induct) simp_all

text \<open>A token of uuidv4 has 36 characters, more than any member name of Object.prototype.\<close>

lemma uuid_token_own_key: "uuid_token i \<Longrightarrow> own_key i"
proof -
  assume "uuid_token i"
  then have "length i = 36"
    by (auto simp: uuid_token_def dest: fills_length)
  then show "own_key i"
    by (auto simp: own_key_def object_prototype_names_def)
qed

lemma uuid_token_example: "uuid_token ''3f2b8c1e-5d4a-4e6f-9a7b-0c1d2e3f4a5b''"
  by (simp add: uuid_token_def hex_digit_def)

lemma scenario_keys: "own_key ''a1''" "own_key ''a2''" "own_key ''a3''"
  by (simp_all add: own_key_def object_prototype_names_def)

text \<open>Inherited names are not own keys, and a question of no-break spaces is blank.\<close>

lemma inherited_names_excluded:
  "\<not> own_key ''constructor''" "\<not> own_key ''toString''" "\<not> own_key ''__proto__''"
  by (simp_all add: own_key_def object_prototype_names_def)

lemma trim_no_break_space:
  "trim [CHR 0xA0] = []" "trim ([CHR 0xA0] @ ''range'' @ [CHR 0xA0, CHR 0x20]) = ''range''"
  by (simp_all add: trim_def js_space_def)

lemma handleQuestion_blank:
  "handleQuestion [CHR 0xA0] u s = s"
  by (simp add: handleQuestion_def trim_def js_space_def)

lemma listening_state:
  "running listening" "\<not> aiSpeaking listening" "\<not> bargeInEnabled listening"
  "recognition listening = Some (Recognizer True)"
  "wsReady listening" "ws listening = Some OPEN" "audio listening = None"
  "currentReqId listening = Some ''a2''"
  "partialBuffer listening ''a1'' = Some []" "partialBuffer listening ''a2'' = Some []"
  "botText listening = ''Thinking...''" "hasSpeechSynthesis listening"
  "trace listening = [RecNew, RecStart, LoadModel, GetUserMedia, WsNew,
      WsSend (Query ''a1'' ''range of the RV400''),
      WsSend (Query ''a2'' ''price of the RV400'')]"
  by (simp_all add: listening_def two_requests_def handler_defs js_defs
        Let_def)

lemma armed_state:
  "running armed" "aiSpeaking armed" "bargeInEnabled armed"
  "recognition armed = Some (Recognizer False)"
  "wsReady armed" "ws armed = Some OPEN" "audio armed = Some Handle"
  "currentReqId armed = Some ''a2''"
  "partialBuffer armed ''a1'' = None" "partialBuffer armed ''a2'' = Some []"
  "hasSpeechSynthesis armed" "now armed = 350" "timers armed = []"
  by (simp_all add: armed_def answer_a1_def final_msg_def listening_def two_requests_def handler_defs js_defs
        Let_def)

lemma second_start_state:
  "aiSpeaking second_start" "\<not> bargeInEnabled second_start" "now second_start = 300"
  "timers second_start = [(350, DeadZone), (650, DeadZone)]"
  by (simp_all add: second_start_def final_msg_def listening_def two_requests_def handler_defs js_defs
        Let_def)

lemma fifty_ms_later_state:
  "aiSpeaking fifty_ms_later" "bargeInEnabled fifty_ms_later" "now fifty_ms_later = 350"
  "timers fifty_ms_later = [(650, DeadZone)]"
  "recognition fifty_ms_later = Some (Recognizer False)"
  "wsReady fifty_ms_later" "ws fifty_ms_later = Some OPEN" "audio fifty_ms_later = None"
  "currentReqId fifty_ms_later = Some ''a2''" "hasSpeechSynthesis fifty_ms_later"
  by (simp_all add: fifty_ms_later_def second_start_def final_msg_def listening_def two_requests_def handler_defs js_defs
        Let_def)

subsection \<open>What each building block does to the fields\<close>

lemma emit_fields [simp]:
  "trace (emit es s) = trace s @ es"
  "running (emit es s) = running s"
  "aiSpeaking (emit es s) = aiSpeaking s"
  "bargeInEnabled (emit es s) = bargeInEnabled s"
  "recognition (emit es s) = recognition s"
  "audio (emit es s) = audio s"
  "ws (emit es s) = ws s"
  "wsReady (emit es s) = wsReady s"
  "currentReqId (emit es s) = currentReqId s"
  "partialBuffer (emit es s) = partialBuffer s"
  "botText (emit es s) = botText s"
  "hasSpeechSynthesis (emit es s) = hasSpeechSynthesis s"
  by (simp_all add: emit_def)

lemma setTimeout_fields [simp]:
  "trace (setTimeout cb d s) = trace s @ [SetTimeout cb d]"
  "running (setTimeout cb d s) = running s"
  "aiSpeaking (setTimeout cb d s) = aiSpeaking s"
  "bargeInEnabled (setTimeout cb d s) = bargeInEnabled s"
  "partialBuffer (setTimeout cb d s) = partialBuffer s"
  "botText (setTimeout cb d s) = botText s"
  by (simp_all add: setTimeout_def)

lemma ws_can_send_cong [simp]:
  "ws_can_send (emit es s) = ws_can_send s"
  "ws_can_send (s\<lparr>aiSpeaking := a\<rparr>) = ws_can_send s"
  "ws_can_send (s\<lparr>bargeInEnabled := a\<rparr>) = ws_can_send s"
  "ws_can_send (s\<lparr>audio := x\<rparr>) = ws_can_send s"
  by (simp_all add: ws_can_send_def)

lemma recognition_start_fields [simp]:
  "trace (recognition_start s) = trace s @ (if recognition s \<noteq> None then [RecStart] else [])"
  "recognition (recognition_start s) = map_option (\<lambda>x. Recognizer True) (recognition s)"
  "running (recognition_start s) = running s"
  "aiSpeaking (recognition_start s) = aiSpeaking s"
  "bargeInEnabled (recognition_start s) = bargeInEnabled s"
  "audio (recognition_start s) = audio s"
  "currentReqId (recognition_start s) = currentReqId s"
  "partialBuffer (recognition_start s) = partialBuffer s"
  by (simp_all add: recognition_start_def split: option.splits)

lemma recognition_stop_fields [simp]:
  "trace (recognition_stop s) = trace s @ (if recognition s \<noteq> None then [RecStop] else [])"
  "running (recognition_stop s) = running s"
  "aiSpeaking (recognition_stop s) = aiSpeaking s"
  "bargeInEnabled (recognition_stop s) = bargeInEnabled s"
  "partialBuffer (recognition_stop s) = partialBuffer s"
  "botText (recognition_stop s) = botText s"
  by (simp_all add: recognition_stop_def split: option.splits)

lemma onAISpeechStart_flags [simp]:
  "aiSpeaking (onAISpeechStart s)" "\<not> bargeInEnabled (onAISpeechStart s)"
  by (simp_all add: onAISpeechStart_def)

lemma onAISpeechEnd_flags [simp]:
  "\<not> aiSpeaking (onAISpeechEnd s)" "\<not> bargeInEnabled (onAISpeechEnd s)"
  by (simp_all add: onAISpeechEnd_def)

lemma stopSpeaking_flags [simp]:
  "\<not> aiSpeaking (stopSpeaking b s)" "\<not> bargeInEnabled (stopSpeaking b s)"
  "running (stopSpeaking b s) = running s"
  by (simp_all add: stopSpeaking_def Let_def split: option.splits)

lemma stopSpeaking_trace:
  "trace (stopSpeaking b s) =
     trace s
     @ (if hasSpeechSynthesis s then [SynthCancel] else [])
     @ (if audio s \<noteq> None then [AudioPause, AudioClearSrc] else [])
     @ (if wsReady s \<and> truthy (currentReqId s) \<and> ws_can_send s
        then [WsSend (Cancel (the (currentReqId s)))] else [])
     @ (if b \<and> recognition s \<noteq> None then [RecStart] else [])"
  by (auto simp: stopSpeaking_def Let_def split: option.splits)

lemma stopSpeaking_fields:
  "currentReqId (stopSpeaking b s) =
     (if wsReady s \<and> truthy (currentReqId s) then None else currentReqId s)"
  "partialBuffer (stopSpeaking b s) = partialBuffer s"
  "audio (stopSpeaking b s) = None"
  "recognition (stopSpeaking b s) =
     (if b then map_option (\<lambda>x. Recognizer True) (recognition s) else recognition s)"
  by (auto simp: stopSpeaking_def Let_def split: option.splits)

lemma playAnswerAudio_fields [simp]:
  "aiSpeaking (playAnswerAudio t s)" "\<not> bargeInEnabled (playAnswerAudio t s)"
  "partialBuffer (playAnswerAudio t s) = partialBuffer s"
  "botText (playAnswerAudio t s) = botText s"
  by (simp_all add: playAnswerAudio_def onAISpeechStart_def)

lemma playAnswerAudio_trace:
  "trace (playAnswerAudio t s) =
     trace s @ (if recognition s \<noteq> None then [RecStop] else [])
             @ [SetTimeout DeadZone 350, FetchSpeak t]"
  by (simp add: playAnswerAudio_def onAISpeechStart_def)

lemma playAnswerAudio_currentReqId:
  "playAnswerAudio t (s\<lparr>currentReqId := c\<rparr>) = (playAnswerAudio t s)\<lparr>currentReqId := c\<rparr>"
  by (cases "recognition s")
     (simp_all add: playAnswerAudio_def onAISpeechStart_def setTimeout_def emit_def
        recognition_stop_def)

lemma handleWSMessage_currentReqId:
  "handleWSMessage msg (s\<lparr>currentReqId := c\<rparr>) = (handleWSMessage msg s)\<lparr>currentReqId := c\<rparr>"
proof -
  have swap: "s\<lparr>currentReqId := c, partialBuffer := p\<rparr>
              = (s\<lparr>partialBuffer := p\<rparr>)\<lparr>currentReqId := c\<rparr>" for p
    by simp
  have "playAnswerAudio t (s\<lparr>currentReqId := c, partialBuffer := p\<rparr>)
        = (playAnswerAudio t (s\<lparr>partialBuffer := p\<rparr>))\<lparr>currentReqId := c\<rparr>" for t p
    by (simp only: swap playAnswerAudio_currentReqId)
  then show ?thesis
    by (simp add: handleWSMessage_def Let_def)
qed

lemma createWebSocket_flags [simp]:
  "aiSpeaking (createWebSocket s) = aiSpeaking s"
  "bargeInEnabled (createWebSocket s) = bargeInEnabled s"
  by (simp_all add: createWebSocket_def)

lemma handleQuestion_flags [simp]:
  "aiSpeaking (handleQuestion q u s) = aiSpeaking s"
  "bargeInEnabled (handleQuestion q u s) = bargeInEnabled s"
  by (simp_all add: handleQuestion_def handleQuestionViaFetch_def Let_def)

lemma stopVAD_flags [simp]:
  "aiSpeaking (stopVAD s) = aiSpeaking s" "bargeInEnabled (stopVAD s) = bargeInEnabled s"
  "running (stopVAD s) = running s"
  by (simp_all add: stopVAD_def Let_def split: option.splits)

lemma setupRecognition_flags [simp]:
  "aiSpeaking (setupRecognition s) = aiSpeaking s"
  "bargeInEnabled (setupRecognition s) = bargeInEnabled s"
  by (simp_all add: setupRecognition_def)

lemma stopAssistant_not_running: "\<not> running (stopAssistant s)"
  by (simp add: stopAssistant_def Let_def split: option.splits)

subsection \<open>Every handler keeps the invariant\<close>

lemma inv_handleWSMessage: "barge_inv s \<Longrightarrow> barge_inv (handleWSMessage m s)"
  by (simp add: barge_inv_def handleWSMessage_def Let_def)

lemma inv_recognition_onresult: "barge_inv s \<Longrightarrow> barge_inv (recognition_onresult raw u s)"
  by (auto simp: barge_inv_def recognition_onresult_def Let_def)

lemma inv_recognition_onend: "barge_inv s \<Longrightarrow> barge_inv (recognition_onend s)"
  by (auto simp: barge_inv_def recognition_onend_def Let_def)

lemma inv_startAssistant: "barge_inv s \<Longrightarrow> barge_inv (startAssistant s)"
  by (simp add: barge_inv_def startAssistant_def loadSileroModel_def)

lemma inv_stopAssistant: "barge_inv s \<Longrightarrow> barge_inv (stopAssistant s)"
  by (simp add: barge_inv_def stopAssistant_def Let_def split: option.splits)

lemma inv_vad_result: "barge_inv s \<Longrightarrow> barge_inv (vad_result r s)"
  by (simp add: barge_inv_def vad_result_def Let_def split: speech_prob.splits)

lemma inv_onaudioprocess: "barge_inv s \<Longrightarrow> barge_inv (onaudioprocess d s)"
  by (simp add: barge_inv_def onaudioprocess_def Let_def)

lemma inv_deadzone_elapsed: "barge_inv s \<Longrightarrow> barge_inv (deadzone_elapsed s)"
  by (auto simp: barge_inv_def deadzone_elapsed_def)

lemma inv_fire: "barge_inv s \<Longrightarrow> barge_inv (fire cb u s)"
  by (cases cb) (simp_all add: inv_deadzone_elapsed, simp_all add: barge_inv_def)

lemma inv_run_timer: "barge_inv s \<Longrightarrow> barge_inv (run_timer u s)"
proof -
  assume "barge_inv s"
  then have "barge_inv (s\<lparr>timers := ts\<rparr>)" for ts
    by (simp add: barge_inv_def)
  then show ?thesis using \<open>barge_inv s\<close>
    by (simp add: run_timer_def inv_fire split: option.splits prod.splits)
qed

lemma inv_step: "barge_inv s \<Longrightarrow> barge_inv (step e s)"
proof (cases e)
  case MicClick
  assume "barge_inv s" then show ?thesis using MicClick
    by (simp add: micBtn_click_def inv_startAssistant inv_stopAssistant)
next
  case (WsMessage f)
  assume "barge_inv s" then show ?thesis using WsMessage
    by (simp add: ws_onmessage_def inv_handleWSMessage split: frame.splits)
next
  case (Timeout u)
  assume "barge_inv s" then show ?thesis using Timeout by (simp add: inv_run_timer)
next
  case (RecOnResult raw u)
  assume "barge_inv s" then show ?thesis using RecOnResult
    by (simp add: inv_recognition_onresult)
next
  case RecOnEnd
  assume "barge_inv s" then show ?thesis using RecOnEnd by (simp add: inv_recognition_onend)
next
  case (VadResult r)
  assume "barge_inv s" then show ?thesis using VadResult by (simp add: inv_vad_result)
next
  case (AudioProcess d)
  assume "barge_inv s" then show ?thesis using AudioProcess by (simp add: inv_onaudioprocess)
qed (simp_all add: barge_inv_def recognition_onstart_def model_loaded_def
       vad_started_def vad_failed_def ws_onopen_def ws_onclose_def ws_onerror_def Let_def
       speak_no_content_def speak_failed_def speak_audio_def audio_onended_def
       fallbackSpeak_def audio_onerror_def utterance_onend_def query_failed_def
       query_answered_def split: option.splits)

lemma inv_run: "barge_inv s \<Longrightarrow> barge_inv (run es s)"
  by (induction es arbitrary: s) (simp_all add: inv_step)

subsection \<open>The accumulator under a sequence of frames\<close>

lemma partialBuffer_other:
  "mid m \<noteq> Some i \<Longrightarrow> partialBuffer (handleWSMessage m s) i = partialBuffer s i"
  by (auto simp: handleWSMessage_def Let_def truthy_def split: option.splits)

lemma partialBuffer_partial:
  "mid m = Some i \<Longrightarrow> i \<noteq> [] \<Longrightarrow> mtype m = ''partial'' \<Longrightarrow>
   partialBuffer (handleWSMessage m s) i
     = Some (js_or (partialBuffer s i) [] @ js_or (mtext m) [])"
  by (simp add: handleWSMessage_def Let_def truthy_def)

lemma accumulate:
  "i \<noteq> [] \<Longrightarrow> \<forall>m\<in>set ms. mid m = Some i \<longrightarrow> mtype m = ''partial'' \<Longrightarrow>
   js_or (partialBuffer (fold handleWSMessage ms s) i) []
     = js_or (partialBuffer s i) [] @ fragments i ms"
proof (induction ms arbitrary: s)
  case Nil
  then show ?case by (simp add: fragments_def)
next
  case (Cons m ms)
  show ?case
  proof (cases "mid m = Some i")
    case True
    with Cons.prems have "partialBuffer (handleWSMessage m s) i
        = Some (js_or (partialBuffer s i) [] @ js_or (mtext m) [])"
      by (simp add: partialBuffer_partial)
    with Cons True show ?thesis by (simp add: fragments_def js_or_empty)
  next
    case False
    with Cons show ?thesis by (simp add: fragments_def partialBuffer_other)
  qed
qed

subsection \<open>The dead zone of one speaking-start\<close>

text \<open>
  When no dead-zone timer of an earlier speaking-start is pending, the dead zone holds:
  whatever the event loop delivers, the barge-in guard is false for as long as less than
  350 ms have passed since the speaking-start.
\<close>

lemma clock_emit [simp]:
  "now (emit es s) = now s" "timers (emit es s) = timers s"
  by (simp_all add: emit_def)

lemma clock_setTimeout [simp]:
  "now (setTimeout cb d s) = now s" "timers (setTimeout cb d s) = timers s @ [(now s + d, cb)]"
  by (simp_all add: setTimeout_def)

lemma clock_recognition_start [simp]:
  "now (recognition_start s) = now s" "timers (recognition_start s) = timers s"
  by (simp_all add: recognition_start_def split: option.splits)

lemma clock_recognition_stop [simp]:
  "now (recognition_stop s) = now s" "timers (recognition_stop s) = timers s"
  by (simp_all add: recognition_stop_def split: option.splits)

lemma clock_onAISpeechStart [simp]:
  "now (onAISpeechStart s) = now s"
  "timers (onAISpeechStart s) = timers s @ [(now s + 350, DeadZone)]"
  by (simp_all add: onAISpeechStart_def)

lemma clock_onAISpeechEnd [simp]:
  "now (onAISpeechEnd s) = now s" "timers (onAISpeechEnd s) = timers s"
  by (simp_all add: onAISpeechEnd_def)

lemma clock_stopSpeaking [simp]:
  "now (stopSpeaking b s) = now s" "timers (stopSpeaking b s) = timers s"
  by (simp_all add: stopSpeaking_def Let_def split: option.splits)

lemma clock_playAnswerAudio [simp]:
  "now (playAnswerAudio t s) = now s"
  "timers (playAnswerAudio t s) = timers s @ [(now s + 350, DeadZone)]"
  by (simp_all add: playAnswerAudio_def)

lemma clock_createWebSocket [simp]:
  "now (createWebSocket s) = now s" "timers (createWebSocket s) = timers s"
  by (simp_all add: createWebSocket_def)

lemma clock_handleQuestion [simp]:
  "now (handleQuestion q u s) = now s" "timers (handleQuestion q u s) = timers s"
  by (simp_all add: handleQuestion_def handleQuestionViaFetch_def Let_def)

lemma clock_stopVAD [simp]:
  "now (stopVAD s) = now s" "timers (stopVAD s) = timers s"
  by (simp_all add: stopVAD_def Let_def split: option.splits)

lemma clock_setupRecognition [simp]:
  "now (setupRecognition s) = now s" "timers (setupRecognition s) = timers s"
  by (simp_all add: setupRecognition_def)

lemma clock_fallbackSpeak [simp]:
  "now (fallbackSpeak t s) = now s" "timers (fallbackSpeak t s) = timers s"
  by (simp_all add: fallbackSpeak_def)

lemma dz_no_arming:
  assumes "in_dead_zone T s" and "no_arming s s'"
  shows "in_dead_zone T s'"
proof -
  from assms(2) obtain new where n: "timers s' = timers s @ new"
    and d: "\<forall>x\<in>set new. snd x = DeadZone \<longrightarrow> fst x = now s + 350"
    and c: "now s' = now s" and b: "bargeInEnabled s' \<longrightarrow> bargeInEnabled s"
    by (auto simp: no_arming_def)
  from assms(1) have T: "T \<le> now s + 350" and nb: "\<not> bargeInEnabled s"
    and old: "\<forall>x\<in>set (timers s). snd x = DeadZone \<longrightarrow> T \<le> fst x"
    by (simp_all add: in_dead_zone_def)
  have "\<forall>x\<in>set (timers s'). snd x = DeadZone \<longrightarrow> T \<le> fst x"
  proof (intro ballI impI)
    fix x assume "x \<in> set (timers s')" and dzx: "snd x = DeadZone"
    then consider "x \<in> set (timers s)" | "x \<in> set new" by (auto simp: n)
    then show "T \<le> fst x"
    proof cases
      case 1 with old dzx show ?thesis by simp
    next
      case 2 with d dzx T show ?thesis by simp
    qed
  qed
  with T nb b c show ?thesis by (simp add: in_dead_zone_def)
qed

lemma na_handleWSMessage: "no_arming s (handleWSMessage m s)"
  by (simp add: no_arming_def handleWSMessage_def Let_def)

lemma na_recognition_onresult: "no_arming s (recognition_onresult raw u s)"
  by (simp add: no_arming_def recognition_onresult_def Let_def)

lemma na_recognition_onend: "no_arming s (recognition_onend s)"
  by (simp add: no_arming_def recognition_onend_def Let_def)

lemma na_micBtn_click: "no_arming s (micBtn_click s)"
  by (simp add: no_arming_def micBtn_click_def startAssistant_def loadSileroModel_def
        stopAssistant_def Let_def split: option.splits)

lemma na_vad_result: "no_arming s (vad_result r s)"
  by (simp add: no_arming_def vad_result_def Let_def split: speech_prob.splits)

lemma na_onaudioprocess: "no_arming s (onaudioprocess d s)"
  by (simp add: no_arming_def onaudioprocess_def Let_def)



lemma na_refl: "no_arming s s"
  by (simp add: no_arming_def)

lemma na_other:
  "no_arming s (recognition_onstart s)" "no_arming s (model_loaded s)"
  "no_arming s (vad_started s)" "no_arming s (vad_failed s)"
  "no_arming s (ws_onopen s)" "no_arming s (ws_onclose s)" "no_arming s (ws_onerror s)"
  "no_arming s (speak_no_content t s)" "no_arming s (speak_failed t s)"
  "no_arming s (speak_audio s)" "no_arming s (audio_onended s)"
  "no_arming s (audio_onerror s)" "no_arming s (utterance_onend s)"
  "no_arming s (query_answered a s)" "no_arming s (query_failed s)"
  by (simp_all add: no_arming_def recognition_onstart_def model_loaded_def
       vad_started_def vad_failed_def ws_onopen_def ws_onclose_def ws_onerror_def Let_def
       speak_no_content_def speak_failed_def speak_audio_def audio_onended_def
       fallbackSpeak_def audio_onerror_def utterance_onend_def query_failed_def
       query_answered_def split: option.splits)

lemma next_due_mem: "next_due ts = Some x \<Longrightarrow> x \<in> set ts"
  by (induction ts arbitrary: x) (auto split: option.splits if_splits)

lemma dz_run_timer:
  assumes "in_dead_zone T s" and "now s < T"
  shows "in_dead_zone T (run_timer u s)"
proof (cases "next_due (timers s)")
  case None
  with assms show ?thesis by (simp add: run_timer_def)
next
  case (Some x)
  obtain t cb where x: "x = (t, cb)" by (cases x)
  have mem: "(t, cb) \<in> set (timers s)"
    using Some x next_due_mem by metis
  show ?thesis
  proof (cases "now s < t")
    case True
    with Some x assms show ?thesis by (simp add: run_timer_def)
  next
    case False
    with assms mem have "cb \<noteq> DeadZone"
      by (auto simp: in_dead_zone_def)
    moreover have "in_dead_zone T (s\<lparr>timers := remove1 (t, cb) (timers s)\<rparr>)"
      using assms(1) by (auto simp: in_dead_zone_def dest: notin_set_remove1)
    ultimately have "in_dead_zone T (fire cb u (s\<lparr>timers := remove1 (t, cb) (timers s)\<rparr>))"
      by (cases cb) (simp_all add: in_dead_zone_def)
    with Some x False show ?thesis by (simp add: run_timer_def)
  qed
qed

lemma now_run_timer: "now (run_timer u s) = now s"
proof -
  have "now (fire cb u s') = now s'" for cb s'
    by (cases cb) (simp_all add: deadzone_elapsed_def)
  then show ?thesis
    by (simp add: run_timer_def split: option.splits prod.splits)
qed

lemma no_arming_step:
  "(\<forall>d. e \<noteq> Elapse d) \<Longrightarrow> (\<forall>u. e \<noteq> Timeout u) \<Longrightarrow> no_arming s (step e s)"
  by (cases e)
     (simp_all add: na_other na_handleWSMessage na_recognition_onresult na_recognition_onend
        na_micBtn_click na_vad_result na_onaudioprocess na_refl ws_onmessage_def
        split: frame.splits)

lemma now_step: "now s \<le> now (step e s)"
proof (cases "(\<forall>d. e \<noteq> Elapse d) \<and> (\<forall>u. e \<noteq> Timeout u)")
  case True
  then have "no_arming s (step e s)" by (simp add: no_arming_step)
  then show ?thesis by (simp add: no_arming_def)
next
  case False
  then show ?thesis by (auto simp: now_run_timer)
qed

lemma now_run: "now s \<le> now (run es s)"
proof (induction es arbitrary: s)
  case Nil
  show ?case by simp
next
  case (Cons e es)
  have "now s \<le> now (step e s)" by (rule now_step)
  also have "\<dots> \<le> now (run es (step e s))" by (rule Cons.IH)
  finally show ?case by simp
qed

lemma dz_step:
  assumes "in_dead_zone T s" and "now (step e s) < T"
  shows "in_dead_zone T (step e s)"
proof (cases "(\<forall>d. e \<noteq> Elapse d) \<and> (\<forall>u. e \<noteq> Timeout u)")
  case True
  then have "no_arming s (step e s)" by (simp add: no_arming_step)
  with assms(1) show ?thesis by (rule dz_no_arming)
next
  case False
  then consider d where "e = Elapse d" | u where "e = Timeout u" by auto
  then show ?thesis
  proof cases
    case 1
    with assms show ?thesis by (simp add: in_dead_zone_def)
  next
    case 2
    with assms show ?thesis by (simp add: dz_run_timer now_run_timer)
  qed
qed

lemma dz_run:
  "in_dead_zone T s \<Longrightarrow> now (run es s) < T \<Longrightarrow> in_dead_zone T (run es s)"
proof (induction es arbitrary: s)
  case Nil
  then show ?case by simp
next
  case (Cons e es)
  have "now (step e s) \<le> now (run es (step e s))" by (rule now_run)
  with Cons.prems have "now (step e s) < T" by simp
  with Cons.prems have "in_dead_zone T (step e s)" by (simp add: dz_step)
  with Cons show ?case by simp
qed

lemma dead_zone_holds:
  assumes "\<forall>x\<in>set (timers s). snd x = DeadZone \<longrightarrow> now s + 350 \<le> fst x"
    and "now (run es (onAISpeechStart s)) < now s + 350"
  shows "\<not> barge_in r (run es (onAISpeechStart s))"
proof -
  have "in_dead_zone (now s + 350) (onAISpeechStart s)"
    using assms(1) by (simp add: in_dead_zone_def)
  with assms(2) have "in_dead_zone (now s + 350) (run es (onAISpeechStart s))"
    by (simp add: dz_run)
  then show ?thesis by (simp add: in_dead_zone_def barge_in_def)
qed

text \<open>From the listening scenario no timer is pending: 349 ms into an answer, with the
  audio playing and a timer callback attempted, a probability of 0.9 does not interrupt.\<close>

lemma dead_zone_holds_example:
  "\<not> barge_in (Prob 0.9)
       (run [RecOnEnd, SpeakAudio, Elapse 349, Timeout [], AudioProcess (replicate 1601 0)]
          (onAISpeechStart listening))"
proof -
  let ?es = "[RecOnEnd, SpeakAudio, Elapse 349, Timeout [], AudioProcess (replicate 1601 0)]"
  have none_pending:
    "\<forall>x\<in>set (timers listening). snd x = DeadZone \<longrightarrow> now listening + 350 \<le> fst x"
    by (simp add: listening_def two_requests_def handler_defs js_defs Let_def)
  have early: "now (run ?es (onAISpeechStart listening)) < now listening + 350"
    by (simp add: listening_def two_requests_def handler_defs js_defs Let_def)
  show ?thesis
    by (rule dead_zone_holds [OF none_pending early])
qed

section \<open>The claims\<close>

subsection \<open>C1: the effects of a barge-in\<close>

text \<open>
  C1, as the code has it. When the barge-in guard holds for a classified window (the
  session is speaking, barge-in is armed and the probability exceeds the threshold), the
  handler does the following, in this order: it cancels fallback synthesis (where the
  browser has it) and pauses and drops the audio element (where one is playing); if the
  channel is ready and an active request id is set, it sends a cancel for that id (where
  the socket can send) and clears the id; it starts the recogniser (where there is one).
  The partial accumulator is left as it was.
\<close>

theorem barge_in_effects:
  assumes "barge_in r s"
  shows "trace (vad_result r s) =
           trace s
           @ (if hasSpeechSynthesis s then [SynthCancel] else [])
           @ (if audio s \<noteq> None then [AudioPause, AudioClearSrc] else [])
           @ (if wsReady s \<and> truthy (currentReqId s) \<and> ws_can_send s
              then [WsSend (Cancel (the (currentReqId s)))] else [])
           @ (if recognition s \<noteq> None then [RecStart] else [])
       \<and> currentReqId (vad_result r s) =
           (if wsReady s \<and> truthy (currentReqId s) then None else currentReqId s)
       \<and> partialBuffer (vad_result r s) = partialBuffer s
       \<and> audio (vad_result r s) = None
       \<and> \<not> aiSpeaking (vad_result r s) \<and> \<not> bargeInEnabled (vad_result r s)
       \<and> recognition (vad_result r s) = map_option (\<lambda>x. Recognizer True) (recognition s)"
proof -
  from assms obtain p where r: "r = Prob p"
    by (auto simp: barge_in_def split: speech_prob.splits)
  have v: "vad_result r s = (stopSpeaking True s)\<lparr>ring := []\<rparr>"
    using assms by (simp add: vad_result_def r)
  show ?thesis unfolding v
    by (simp add: stopSpeaking_trace stopSpeaking_fields)
qed

text \<open>In the armed scenario a probability of 0.9 interrupts the answer to a1 while a2 is
  the active request: synthesis and audio are stopped, a2 is cancelled, capture restarts.\<close>

theorem barge_in_effects_witness:
  "barge_in (Prob 0.9) armed
   \<and> trace (vad_result (Prob 0.9) armed) =
       trace armed @ [SynthCancel, AudioPause, AudioClearSrc, WsSend (Cancel ''a2''), RecStart]
   \<and> currentReqId (vad_result (Prob 0.9) armed) = None"
proof -
  have h: "barge_in (Prob 0.9) armed"
    by (simp add: barge_in_def threshold_def armed_state)
  show ?thesis
    using h barge_in_effects [OF h]
    by (simp add: armed_state truthy_def ws_can_send_def)
qed

text \<open>The claim has the accumulator entry of the cancelled id cleared. In the armed
  scenario the entry of a2 is still there after the barge-in.\<close>

theorem barge_in_keeps_accumulator:
  "barge_in (Prob 0.9) armed
   \<and> currentReqId armed = Some ''a2''
   \<and> WsSend (Cancel ''a2'') \<in> set (trace (vad_result (Prob 0.9) armed))
   \<and> partialBuffer (vad_result (Prob 0.9) armed) ''a2'' = Some []"
proof -
  have h: "barge_in (Prob 0.9) armed"
    by (simp add: barge_in_def threshold_def armed_state)
  have v: "vad_result (Prob 0.9) armed = (stopSpeaking True armed)\<lparr>ring := []\<rparr>"
    using h by (simp add: vad_result_def)
  show ?thesis
    using h unfolding v
    by (simp add: stopSpeaking_trace stopSpeaking_fields armed_state truthy_def
          ws_can_send_def)
qed

subsection \<open>C2: inbound events and the active request id\<close>

text \<open>
  C2, as the code has it. The handler of inbound events never consults the active request
  id. For every event whose id is a request token (truthy, and not the name of a member
  of Object.prototype; every token of uuidv4 is one), whether or not that id is the
  active one: a partial sets the displayed answer to the text accumulated for the event's
  id, an error sets it to the error message, a final (and any other type) leaves it
  unchanged; and handling the event commutes with any change of the active request id.
\<close>

theorem display_ignores_active_id:
  "truthy (mid msg) \<Longrightarrow> own_key (the (mid msg)) \<Longrightarrow>
   botText (handleWSMessage msg s) =
     (if mtype msg = ''partial''
      then js_or (partialBuffer s (the (mid msg))) [] @ js_or (mtext msg) []
      else if mtype msg = ''error'' then ''Error: '' @ js_or (merror msg) ''Unknown error''
      else botText s)
   \<and> handleWSMessage msg (s\<lparr>currentReqId := c\<rparr>) = (handleWSMessage msg s)\<lparr>currentReqId := c\<rparr>"
  by (simp add: handleWSMessage_currentReqId) (simp add: handleWSMessage_def Let_def)

theorem display_ignores_active_id_witness:
  "truthy (mid (partial_msg ''a2'' ''1.4 ''))
   \<and> own_key (the (mid (partial_msg ''a2'' ''1.4 '')))
   \<and> botText (handleWSMessage (partial_msg ''a2'' ''1.4 '') listening) = ''1.4 ''"
  using display_ignores_active_id [of "partial_msg ''a2'' ''1.4 ''" listening None]
  by (simp add: partial_msg_def truthy_def js_or_def listening_state scenario_keys)

text \<open>The claim has stale events leave the display alone. While a2 is the active
  request, a partial of the superseded a1 replaces the displayed text.\<close>

theorem stale_partial_overwrites_display:
  "currentReqId listening = Some ''a2''
   \<and> mid (partial_msg ''a1'' ''Range '') = Some ''a1''
   \<and> botText listening = ''Thinking...''
   \<and> botText (handleWSMessage (partial_msg ''a1'' ''Range '') listening) = ''Range ''"
  by (simp add: listening_state partial_msg_def handleWSMessage_def truthy_def js_or_def
        Let_def)

subsection \<open>C3: the dead zone\<close>

text \<open>
  C3 at a concrete run. The answer to a1 starts playing at time 0 and the answer to a2 at
  time 300, so the second speaking-start disarms barge-in and starts a dead-zone timer due
  at 650. The timer of the first speaking-start is still pending; it runs at 350, finds
  the session speaking and arms barge-in. A window classified with probability 0.9 at
  time 350, which is 50 ms after the speaking-start and 300 ms before its dead-zone timer
  is due, interrupts the answer. (With no timer of an earlier speaking-start pending the
  dead zone holds, see \<open>dead_zone_holds\<close>; and the timer callback arms barge-in only
  while the session is speaking.)
\<close>

theorem stale_deadzone_timer_arms_early:
  "now second_start = 300
   \<and> \<not> bargeInEnabled second_start
   \<and> timers second_start = [(350, DeadZone), (650, DeadZone)]
   \<and> now fifty_ms_later = 350
   \<and> timers fifty_ms_later = [(650, DeadZone)]
   \<and> barge_in (Prob 0.9) fifty_ms_later
   \<and> trace (vad_result (Prob 0.9) fifty_ms_later) =
       trace fifty_ms_later @ [SynthCancel, WsSend (Cancel ''a2''), RecStart]"
proof -
  have h: "barge_in (Prob 0.9) fifty_ms_later"
    by (simp add: barge_in_def threshold_def fifty_ms_later_state)
  have v: "vad_result (Prob 0.9) fifty_ms_later = (stopSpeaking True fifty_ms_later)\<lparr>ring := []\<rparr>"
    using h by (simp add: vad_result_def)
  show ?thesis
    using h unfolding v
    by (simp add: second_start_state fifty_ms_later_state stopSpeaking_trace truthy_def
          ws_can_send_def)
qed

subsection \<open>C4: the life of an accumulator entry\<close>

text \<open>
  C4, as the code has it, for request tokens (keys that name no member of
  Object.prototype; every token of uuidv4 is one). The entry of a request token is
  created, empty, when the request is sent over the streaming channel, and deleted when a
  final event for that token is handled. A cancelled event changes nothing, and the
  client's own cancel (stopSpeaking) leaves the accumulator as it is. Text deleted at the
  final does not come back: a later partial for that token starts from the empty text.
\<close>

theorem accumulator_lifecycle:
  "(wsReady s \<and> trim q \<noteq> [] \<and> own_key u
      \<longrightarrow> partialBuffer (handleQuestion q u s) u = Some [])
 \<and> (truthy (mid m) \<and> own_key (the (mid m)) \<and> mtype m = ''final''
      \<longrightarrow> partialBuffer (handleWSMessage m s) (the (mid m)) = None)
 \<and> (mtype m = ''cancelled'' \<longrightarrow> handleWSMessage m s = s)
 \<and> partialBuffer (stopSpeaking b s) = partialBuffer s
 \<and> (truthy (mid m) \<and> own_key (the (mid m)) \<and> mtype m = ''partial''
      \<and> partialBuffer s (the (mid m)) = None
      \<longrightarrow> partialBuffer (handleWSMessage m s) (the (mid m)) = Some (js_or (mtext m) []))"
  by (auto simp: stopSpeaking_fields handleWSMessage_def handleQuestion_def
        handleQuestionViaFetch_def USE_WEBSOCKET_def Let_def js_or_empty)

text \<open>A third question creates the entry of a3; the final of a1 removes the entry of a1; a
  cancelled event for a2 changes nothing; a late partial for a1 starts from nothing.\<close>

theorem accumulator_lifecycle_witness:
  "wsReady listening \<and> trim ''top speed'' \<noteq> []
   \<and> own_key ''a3'' \<and> own_key ''a1''
   \<and> partialBuffer (handleQuestion ''top speed'' ''a3'' listening) ''a3'' = Some []
   \<and> partialBuffer listening ''a1'' = Some []
   \<and> partialBuffer (handleWSMessage (final_msg ''a1'' (Some ''150 km'')) listening) ''a1'' = None
   \<and> handleWSMessage (cancelled_msg ''a2'') listening = listening
   \<and> partialBuffer armed ''a1'' = None
   \<and> partialBuffer (handleWSMessage (partial_msg ''a1'' ''late'') armed) ''a1'' = Some ''late''"
  using accumulator_lifecycle
          [where s = listening and q = "''top speed''" and u = "''a3''"
             and m = "final_msg ''a1'' (Some ''150 km'')" and b = False]
        accumulator_lifecycle
          [where s = listening and q = "[]" and u = "[]"
             and m = "cancelled_msg ''a2''" and b = False]
        accumulator_lifecycle
          [where s = armed and q = "[]" and u = "[]"
             and m = "partial_msg ''a1'' ''late''" and b = False]
  by (simp add: final_msg_def cancelled_msg_def partial_msg_def truthy_def js_or_def
        trim_def js_space_def listening_state armed_state scenario_keys)

text \<open>The claim has the entry deleted when the request is cancelled. In the armed
  scenario barge-in cancels a2 and the server acknowledges; the entry of a2 is still there.\<close>

theorem cancelled_keeps_accumulator:
  "WsSend (Cancel ''a2'') \<in> set (trace (vad_result (Prob 0.9) armed))
   \<and> partialBuffer
        (handleWSMessage (cancelled_msg ''a2'') (vad_result (Prob 0.9) armed)) ''a2''
      = Some []"
proof -
  have h: "barge_in (Prob 0.9) armed"
    by (simp add: barge_in_def threshold_def armed_state)
  have v: "vad_result (Prob 0.9) armed = (stopSpeaking True armed)\<lparr>ring := []\<rparr>"
    using h by (simp add: vad_result_def)
  show ?thesis
    unfolding v
    by (simp add: stopSpeaking_trace stopSpeaking_fields armed_state truthy_def
          ws_can_send_def handleWSMessage_def cancelled_msg_def)
qed

subsection \<open>C5: partials accumulate, an empty final falls back to them\<close>

text \<open>
  C5. Let \<open>i\<close> be a request token (not empty, and not the name of a member of
  Object.prototype; every token of uuidv4 is one). Take any sequence of inbound events in
  which the events of request \<open>i\<close> are all partials (events of other requests may be
  interleaved), followed by a final for \<open>i\<close> whose text is omitted or empty. After the sequence the accumulated text of \<open>i\<close> is what
  it was before followed by the fragments of \<open>i\<close> in order; the final hands exactly that
  text to the playback controller; and the entry of \<open>i\<close> is then gone.
\<close>

theorem partials_concatenate_then_final:
  assumes "i \<noteq> []" and "own_key i"
    and "\<forall>m\<in>set ms. mid m = Some i \<longrightarrow> mtype m = ''partial''"
    and "mtype f = ''final''" and "mid f = Some i" and "\<not> truthy (mtext f)"
  shows "js_or (partialBuffer (fold handleWSMessage ms s) i) []
           = js_or (partialBuffer s i) [] @ fragments i ms
       \<and> last (trace (handleWSMessage f (fold handleWSMessage ms s)))
           = FetchSpeak (js_or (partialBuffer s i) [] @ fragments i ms)
       \<and> partialBuffer (handleWSMessage f (fold handleWSMessage ms s)) i = None"
proof -
  let ?s = "fold handleWSMessage ms s"
  have acc: "js_or (partialBuffer ?s i) [] = js_or (partialBuffer s i) [] @ fragments i ms"
    using assms(1,3) by (rule accumulate)
  have t: "js_or (mtext f) d = d" for d
    using assms(6) by (auto simp: js_or_def truthy_def split: option.splits)
  have h: "handleWSMessage f ?s
      = playAnswerAudio (js_or (partialBuffer ?s i) [])
          (?s\<lparr>partialBuffer := (partialBuffer ?s)(i := None)\<rparr>)"
    using assms(1,4,5) by (simp add: handleWSMessage_def truthy_def t)
  show ?thesis
    unfolding h by (simp add: acc playAnswerAudio_trace)
qed

text \<open>Partials "Hel" and "lo" for a2, then a final without text: "Hello" is spoken.\<close>

theorem partials_concatenate_then_final_witness:
  "own_key ''a2''
   \<and> last (trace (handleWSMessage (final_msg ''a2'' None)
          (fold handleWSMessage [partial_msg ''a2'' ''Hel'', partial_msg ''a2'' ''lo'']
             listening)))
     = FetchSpeak ''Hello''
   \<and> partialBuffer (handleWSMessage (final_msg ''a2'' None)
          (fold handleWSMessage [partial_msg ''a2'' ''Hel'', partial_msg ''a2'' ''lo'']
             listening)) ''a2'' = None"
  using partials_concatenate_then_final
          [of "''a2''" "[partial_msg ''a2'' ''Hel'', partial_msg ''a2'' ''lo'']"
              "final_msg ''a2'' None" listening]
  by (simp add: partial_msg_def final_msg_def truthy_def fragments_def js_or_def
        listening_state scenario_keys)

subsection \<open>C6: armed only while speaking\<close>

text \<open>
  C6. In every state that the event loop reaches from the initial state,
  \<open>bargeInEnabled\<close> implies \<open>aiSpeaking\<close>. Speaking-start, speaking-end and
  stop-speaking establish the invariant from any state; the dead-zone timer callback,
  stop-assistant and every other event handler preserve it.
\<close>

theorem bargeIn_implies_speaking:
  "barge_inv (run es (init rec_api synth_api))
   \<and> barge_inv (onAISpeechStart s)
   \<and> barge_inv (onAISpeechEnd s)
   \<and> barge_inv (stopSpeaking b s)
   \<and> (barge_inv s \<longrightarrow> barge_inv (deadzone_elapsed s))
   \<and> (barge_inv s \<longrightarrow> barge_inv (stopAssistant s))
   \<and> (barge_inv s \<longrightarrow> barge_inv (step e s))"
proof -
  have "barge_inv (init rec_api synth_api)"
    by (simp add: barge_inv_def init_def)
  then have "barge_inv (run es (init rec_api synth_api))"
    by (rule inv_run)
  then show ?thesis
    by (simp add: inv_deadzone_elapsed inv_stopAssistant inv_step) (simp add: barge_inv_def)
qed

text \<open>The armed scenario is reached from the initial state with barge-in armed, and it is
  speaking; its dead-zone callback, a stop and a further event keep the invariant.\<close>

theorem bargeIn_implies_speaking_witness:
  "bargeInEnabled armed \<and> aiSpeaking armed
   \<and> barge_inv armed
   \<and> barge_inv (deadzone_elapsed armed)
   \<and> barge_inv (stopAssistant armed)
   \<and> barge_inv (step AudioEnded armed)"
proof -
  have r: "armed = run (two_requests @ answer_a1) (init True True)"
    by (simp add: armed_def listening_def run_append)
  have i: "barge_inv armed"
    using bargeIn_implies_speaking [of "two_requests @ answer_a1" True True armed False AudioEnded]
    by (simp add: r [symmetric])
  have a: "bargeInEnabled armed"
    by (simp add: armed_state)
  from i a have "aiSpeaking armed"
    by (simp add: barge_inv_def)
  with i a show ?thesis
    using bargeIn_implies_speaking [of "[]" True True armed False AudioEnded]
    by simp
qed

subsection \<open>C7: restart after a spontaneous end of capture\<close>

text \<open>
  C7. When the recogniser ends on its own, its end handler calls start() on it if and
  only if the session is running and not speaking; otherwise it calls nothing and capture
  stays off.
\<close>

theorem onend_restarts_iff_listening:
  "recognition s \<noteq> None \<Longrightarrow>
   trace (recognition_onend s) =
     (if running s \<and> \<not> aiSpeaking s then trace s @ [RecStart] else trace s)
   \<and> recognition (recognition_onend s) = Some (Recognizer (running s \<and> \<not> aiSpeaking s))"
  by (auto simp: recognition_onend_def Let_def)

text \<open>Listening: capture restarts. Speaking (the armed scenario): it does not.\<close>

theorem onend_restarts_iff_listening_witness:
  "recognition listening \<noteq> None \<and> running listening \<and> \<not> aiSpeaking listening
   \<and> trace (recognition_onend listening) = trace listening @ [RecStart]
   \<and> recognition armed \<noteq> None \<and> running armed \<and> aiSpeaking armed
   \<and> trace (recognition_onend armed) = trace armed"
proof -
  have l: "recognition listening \<noteq> None" and a: "recognition armed \<noteq> None"
    by (simp_all add: listening_state armed_state)
  show ?thesis
    using onend_restarts_iff_listening [OF l] onend_restarts_iff_listening [OF a]
    by (simp add: listening_state armed_state)
qed

subsection \<open>C8: stopping twice\<close>

text \<open>
  C8. Calling stop-assistant twice in a row leaves the session, including the record of
  calls made to the recogniser, the audio nodes, the playback and the socket, exactly as
  one call leaves it: the second call releases nothing again. No call in the handler can
  raise past its own try/catch.
\<close>

theorem stopAssistant_idempotent:
  "stopAssistant (stopAssistant s) = stopAssistant s"
  using stopAssistant_not_running [of s]
  by (simp add: stopAssistant_def [of "stopAssistant s"])

text \<open>Stopping the armed scenario releases everything once.\<close>

theorem stopAssistant_idempotent_witness:
  "running armed
   \<and> trace (stopAssistant armed) =
       trace armed @ [RecDetach, RecStop, ProcDisconnect, SrcDisconnect, CtxClose,
                      SynthCancel, AudioPause, AudioClearSrc, WsSend (Cancel ''a2''), WsClose]
   \<and> trace (stopAssistant (stopAssistant armed)) = trace (stopAssistant armed)"
proof -
  have "trace (stopAssistant armed) =
       trace armed @ [RecDetach, RecStop, ProcDisconnect, SrcDisconnect, CtxClose,
                      SynthCancel, AudioPause, AudioClearSrc, WsSend (Cancel ''a2''), WsClose]"
    by (simp add: armed_def answer_a1_def final_msg_def listening_def two_requests_def
          handler_defs js_defs Let_def)
  then show ?thesis
    using stopAssistant_idempotent [of armed] by (simp add: armed_state)
qed

subsection \<open>C9: the thresholds of the voice activity monitor\<close>

text \<open>
  C9. For each classified window the threshold is 0.80 while the session is speaking and
  0.65 otherwise, and the monitor reacts to the window (beyond emptying its ring) only
  when the classifier returned a number strictly above that threshold; a probability
  equal to the threshold gives no reaction. (The classifier's output is a float32 and the
  thresholds are doubles; no float32 lies between 0.8 or 0.65 and the double nearest to
  it, so the comparison is the one on the reals.)
\<close>

theorem vad_threshold:
  "threshold s = (if aiSpeaking s then 0.8 else 0.65)
   \<and> (vad_result r s \<noteq> s\<lparr>ring := []\<rparr> \<longrightarrow> (\<exists>p. r = Prob p \<and> threshold s < p))
   \<and> vad_result (Prob (threshold s)) s = s\<lparr>ring := []\<rparr>"
  by (auto simp: threshold_def barge_in_def vad_result_def split: speech_prob.splits)

text \<open>Armed and speaking, 0.9 interrupts; 0.8 does not.\<close>

theorem vad_threshold_witness:
  "threshold armed = 0.8
   \<and> vad_result (Prob 0.9) armed \<noteq> armed\<lparr>ring := []\<rparr>
   \<and> vad_result (Prob 0.8) armed = armed\<lparr>ring := []\<rparr>
   \<and> threshold listening = 0.65"
proof -
  note armed_case = vad_threshold [of armed "Prob 0.9"]
  note listening_case = vad_threshold [of listening "Prob 0.9"]
  have t8: "threshold armed = 0.8"
    using armed_case [THEN conjunct1] by (simp only: armed_state if_True)
  have t65: "threshold listening = 0.65"
    using listening_case [THEN conjunct1] by (simp only: listening_state if_False)
  have at: "vad_result (Prob 0.8) armed = armed\<lparr>ring := []\<rparr>"
    using armed_case [THEN conjunct2, THEN conjunct2] by (simp only: t8)
  have "aiSpeaking (armed\<lparr>ring := []\<rparr>)"
    by (simp add: armed_state)
  moreover have "\<not> aiSpeaking (vad_result (Prob 0.9) armed)"
    by (simp add: vad_result_def barge_in_def threshold_def armed_state)
  ultimately have above: "vad_result (Prob 0.9) armed \<noteq> armed\<lparr>ring := []\<rparr>"
    by metis
  from t8 above at t65 show ?thesis
    by (intro conjI)
qed

subsection \<open>C10: frames without a usable id\<close>

text \<open>
  C10. An inbound frame whose id is missing, null or empty changes nothing on the client:
  displayed text, accumulator, request id and every other field stay as they are. The
  server answers an unparsable frame with an error frame whose id is null, so that error
  never reaches the display.
\<close>

theorem falsy_id_frame_dropped:
  "(\<not> truthy (mid msg) \<longrightarrow> handleWSMessage msg s = s \<and> ws_onmessage (Frame msg) s = s)
   \<and> server_on_message ai reqs Unparsable = Send (error_frame None ''Invalid JSON'')
   \<and> ws_onmessage (Frame (error_frame None ''Invalid JSON'')) s = s"
  by (simp add: handleWSMessage_def ws_onmessage_def server_on_message_def error_frame_def
        truthy_def)

text \<open>While the question a2 is pending, the server's "Invalid JSON" and its "Missing id or
  question" (sent with id null) leave the session as it is.\<close>

theorem falsy_id_frame_dropped_witness:
  "\<not> truthy (mid (error_frame None ''Missing id or question''))
   \<and> handleWSMessage (error_frame None ''Missing id or question'') listening = listening
   \<and> server_on_message True {} (Parsed ''query'' None (Some ''range''))
       = Send (error_frame None ''Missing id or question'')
   \<and> botText (ws_onmessage (Frame (error_frame None ''Invalid JSON'')) listening)
       = ''Thinking...''"
  using falsy_id_frame_dropped [of "error_frame None ''Missing id or question''" listening True "{}"]
  by (simp add: error_frame_def truthy_def server_on_message_def or_null_def listening_state)

end
